theory Spec2Isabelle
  imports Complex_Main "HOL-Library.Sublist"
begin

section \<open>Numbers and the standard library\<close>

text \<open>
  A JavaScript \<^verbatim>\<open>number\<close> is a double: its arithmetic rounds, \<^verbatim>\<open>Math.sin\<close>,
  \<^verbatim>\<open>Math.cos\<close> and \<^verbatim>\<open>Math.atan2\<close> are approximations the engine chooses, and a
  comparison with \<^verbatim>\<open>NaN\<close> is false. The functions of the source are therefore
  modelled over an arbitrary type of numbers \<open>'n\<close> and take the arithmetic they run on
  as an argument: the numeric literals, the operators \<^verbatim>\<open>+ - * /\<close>, \<^verbatim>\<open><=\<close> and
  \<^verbatim>\<open><\<close>, and the members of \<^verbatim>\<open>Math\<close> that the source uses. What is proved for every
  arithmetic holds for the doubles of the engine.
\<close>

record 'n arith =
  js_num :: "int \<Rightarrow> 'n"
  js_add :: "'n \<Rightarrow> 'n \<Rightarrow> 'n"
  js_sub :: "'n \<Rightarrow> 'n \<Rightarrow> 'n"
  js_mul :: "'n \<Rightarrow> 'n \<Rightarrow> 'n"
  js_div :: "'n \<Rightarrow> 'n \<Rightarrow> 'n"
  js_le :: "'n \<Rightarrow> 'n \<Rightarrow> bool"
  js_lt :: "'n \<Rightarrow> 'n \<Rightarrow> bool"
  Math_PI :: 'n
  Math_sin :: "'n \<Rightarrow> 'n"
  Math_cos :: "'n \<Rightarrow> 'n"
  Math_sqrt :: "'n \<Rightarrow> 'n"
  Math_atan2 :: "'n \<Rightarrow> 'n \<Rightarrow> 'n"

text \<open>
  The exact arithmetic of the real numbers is one such arithmetic. In it
  \<^verbatim>\<open>Math.atan2(y, x)\<close> is the angle of the point \<open>(x, y)\<close>, in \<open>(-\<pi>, \<pi>]\<close>, by cases on
  the signs of its arguments.
\<close>

definition atan2 :: "real \<Rightarrow> real \<Rightarrow> real" where
  "atan2 y x =
     (if 0 < x then arctan (y / x)
      else if x < 0 then (if 0 \<le> y then arctan (y / x) + pi else arctan (y / x) - pi)
      else if 0 < y then pi / 2
      else if y < 0 then - (pi / 2)
      else 0)"

definition exact :: "real arith" where
  "exact =
     \<lparr>js_num = of_int, js_add = (+), js_sub = (-), js_mul = (*), js_div = (/),
      js_le = (\<le>), js_lt = (<), Math_PI = pi, Math_sin = sin, Math_cos = cos,
      Math_sqrt = sqrt, Math_atan2 = atan2\<rparr>"

section \<open>Data model (services/api)\<close>

record 'n article =
  pageid :: int
  ns :: int
  title :: string
  lat :: 'n
  lon :: 'n
  dist_article :: 'n
  primary :: string
  lang :: string

text \<open>
  \<^verbatim>\<open>center: [number, number]\<close> is a pair; \<^verbatim>\<open>center[0]\<close> is its first component
  and \<^verbatim>\<open>center[1]\<close> its second. The optional field \<^verbatim>\<open>articles?\<close> is an option.
\<close>

record 'n circle =
  id_circle :: string
  name :: string
  center :: "'n \<times> 'n"
  radius :: 'n
  color :: string
  articles :: "int list option"

section \<open>ArticleDetail: distance and the list of nearby circles\<close>

definition deg2rad :: "'n arith \<Rightarrow> 'n \<Rightarrow> 'n" where
  "deg2rad ar deg = js_mul ar deg (js_div ar (Math_PI ar) (js_num ar 180))"

text \<open>
  The operators associate to the left: \<^verbatim>\<open>x * y * z\<close> is \<^verbatim>\<open>(x * y) * z\<close>.
\<close>

definition getDistanceFromLatLonInM :: "'n arith \<Rightarrow> 'n \<Rightarrow> 'n \<Rightarrow> 'n \<Rightarrow> 'n \<Rightarrow> 'n" where
  "getDistanceFromLatLonInM ar lat1 lon1 lat2 lon2 =
     (let R = js_num ar 6371000;
          dLat = deg2rad ar (js_sub ar lat2 lat1);
          dLon = deg2rad ar (js_sub ar lon2 lon1);
          a = js_add ar
                (js_mul ar (Math_sin ar (js_div ar dLat (js_num ar 2)))
                           (Math_sin ar (js_div ar dLat (js_num ar 2))))
                (js_mul ar
                   (js_mul ar
                      (js_mul ar (Math_cos ar (deg2rad ar lat1)) (Math_cos ar (deg2rad ar lat2)))
                      (Math_sin ar (js_div ar dLon (js_num ar 2))))
                   (Math_sin ar (js_div ar dLon (js_num ar 2))));
          c = js_mul ar (js_num ar 2)
                (Math_atan2 ar (Math_sqrt ar a) (Math_sqrt ar (js_sub ar (js_num ar 1) a)));
          d = js_mul ar R c
      in d)"

text \<open>
  The arrow function that \<^verbatim>\<open>ArticleDetail\<close> passes to \<^verbatim>\<open>circles.filter\<close>: the
  containment test of the specification (\<^verbatim>\<open>isWithinCircle\<close>). The distance is taken
  from the circle's center to the article.
\<close>

definition isWithinCircle :: "'n arith \<Rightarrow> 'n article \<Rightarrow> 'n circle \<Rightarrow> bool" where
  "isWithinCircle ar article circle =
     (let distance = getDistanceFromLatLonInM ar
                       (fst (center circle))
                       (snd (center circle))
                       (lat article)
                       (lon article)
      in js_le ar distance (radius circle))"

text \<open>
  The component returns early on a null article, before the list is computed
  (\<open>None\<close>); otherwise \<^verbatim>\<open>nearbyCircles\<close> is the filtered copy of the \<^verbatim>\<open>circles\<close>
  property.
\<close>

definition nearbyCircles ::
  "'n arith \<Rightarrow> 'n article option \<Rightarrow> 'n circle list \<Rightarrow> 'n circle list option" where
  "nearbyCircles ar article circles =
     (case article of
        None \<Rightarrow> None
      | Some a \<Rightarrow> Some (filter (isWithinCircle ar a) circles))"

section \<open>The page script: module-level state and arrays\<close>

text \<open>
  Arrays are objects: a variable holds a reference, \<^verbatim>\<open>filter\<close> allocates a new array
  and \<^verbatim>\<open>sort\<close> reorders the array it is called on in place. The state therefore has a
  store of arrays, addressed by references, with an allocation counter, next to the
  module-level variables of the script. The circles in an array are kept by value: no
  function modelled here assigns to a field of a circle.
\<close>

type_synonym ref = nat

record 'n state =
  arrays :: "ref \<Rightarrow> 'n circle list option"
  next_ref :: ref
  selectedArticles :: "int list"
  selectedArticleTitles :: "(int \<times> string) list"
  currentCircleId :: "string option"
  circleData :: "'n circle option"
  allCircles :: ref
  currentArticleForAssignment :: "(int \<times> string) option"
  currentArticleLocation :: "('n \<times> 'n) option"

text \<open>
  \<^verbatim>\<open>Array.prototype.filter\<close>: a new array with the elements the callback accepts, in
  their order. Calling it on a reference that is no array throws (\<open>None\<close>).
\<close>

definition Array_filter ::
  "('n circle \<Rightarrow> bool) \<Rightarrow> ref \<Rightarrow> 'n state \<Rightarrow> (ref \<times> 'n state) option" where
  "Array_filter callback this s =
     (case arrays s this of
        None \<Rightarrow> None
      | Some xs \<Rightarrow>
          Some (next_ref s,
                s\<lparr>arrays := (arrays s)(next_ref s \<mapsto> filter callback xs),
                  next_ref := Suc (next_ref s)\<rparr>))"

text \<open>
  \<^verbatim>\<open>Array.prototype.sort(comparefn)\<close>: a positive result of the comparator puts its
  second argument first; a negative result, zero and \<^verbatim>\<open>NaN\<close> (which the standard
  reads as zero) do not. The sort is stable (as the language standard requires since
  ES2019), reorders the array in place and returns the same reference. It is modelled by
  insertion from the right, an element going in front of the first one it does not
  compare greater than.
\<close>

fun insert_by :: "'n arith \<Rightarrow> ('a \<Rightarrow> 'a \<Rightarrow> 'n) \<Rightarrow> 'a \<Rightarrow> 'a list \<Rightarrow> 'a list" where
  "insert_by ar comparefn x [] = [x]"
| "insert_by ar comparefn x (y # ys) =
     (if js_lt ar (js_num ar 0) (comparefn x y) then y # insert_by ar comparefn x ys
      else x # y # ys)"

fun sort_by :: "'n arith \<Rightarrow> ('a \<Rightarrow> 'a \<Rightarrow> 'n) \<Rightarrow> 'a list \<Rightarrow> 'a list" where
  "sort_by ar comparefn [] = []"
| "sort_by ar comparefn (x # xs) = insert_by ar comparefn x (sort_by ar comparefn xs)"

definition Array_sort ::
  "'n arith \<Rightarrow> ('n circle \<Rightarrow> 'n circle \<Rightarrow> 'n) \<Rightarrow> ref \<Rightarrow> 'n state \<Rightarrow> (ref \<times> 'n state) option" where
  "Array_sort ar comparefn this s =
     (case arrays s this of
        None \<Rightarrow> None
      | Some xs \<Rightarrow> Some (this, s\<lparr>arrays := (arrays s)(this \<mapsto> sort_by ar comparefn xs)\<rparr>))"

definition calculateDistance :: "'n arith \<Rightarrow> 'n \<Rightarrow> 'n \<Rightarrow> 'n \<Rightarrow> 'n \<Rightarrow> 'n" where
  "calculateDistance ar lat1 lon1 lat2 lon2 =
     (let R = js_num ar 6371000;
          \<phi>1 = js_div ar (js_mul ar lat1 (Math_PI ar)) (js_num ar 180);
          \<phi>2 = js_div ar (js_mul ar lat2 (Math_PI ar)) (js_num ar 180);
          \<Delta>\<phi> = js_div ar (js_mul ar (js_sub ar lat2 lat1) (Math_PI ar)) (js_num ar 180);
          \<Delta>lambda = js_div ar (js_mul ar (js_sub ar lon2 lon1) (Math_PI ar)) (js_num ar 180);
          a = js_add ar
                (js_mul ar (Math_sin ar (js_div ar \<Delta>\<phi> (js_num ar 2)))
                           (Math_sin ar (js_div ar \<Delta>\<phi> (js_num ar 2))))
                (js_mul ar
                   (js_mul ar
                      (js_mul ar (Math_cos ar \<phi>1) (Math_cos ar \<phi>2))
                      (Math_sin ar (js_div ar \<Delta>lambda (js_num ar 2))))
                   (Math_sin ar (js_div ar \<Delta>lambda (js_num ar 2))));
          c = js_mul ar (js_num ar 2)
                (Math_atan2 ar (Math_sqrt ar a) (Math_sqrt ar (js_sub ar (js_num ar 1) a)))
      in js_mul ar R c)"

text \<open>
  \<^verbatim>\<open>findNearbyCircles(lat, lon)\<close> takes the query point only; the circles are read
  from the module-level variable \<^verbatim>\<open>allCircles\<close>. The two arrow functions are the
  selection callback and the comparator.
\<close>

definition nearby_callback :: "'n arith \<Rightarrow> 'n \<Rightarrow> 'n \<Rightarrow> 'n circle \<Rightarrow> bool" where
  "nearby_callback ar plat plon circle =
     (let circleLat = fst (center circle);
          circleLon = snd (center circle);
          distance = calculateDistance ar plat plon circleLat circleLon
      in js_le ar distance (js_num ar 1000) \<or> js_le ar distance (radius circle))"

definition nearby_compare :: "'n arith \<Rightarrow> 'n \<Rightarrow> 'n \<Rightarrow> 'n circle \<Rightarrow> 'n circle \<Rightarrow> 'n" where
  "nearby_compare ar plat plon a b =
     (let distA = calculateDistance ar plat plon (fst (center a)) (snd (center a));
          distB = calculateDistance ar plat plon (fst (center b)) (snd (center b))
      in js_sub ar distA distB)"

definition findNearbyCircles ::
  "'n arith \<Rightarrow> 'n \<Rightarrow> 'n \<Rightarrow> 'n state \<Rightarrow> (ref \<times> 'n state) option" where
  "findNearbyCircles ar plat plon s =
     Option.bind (Array_filter (nearby_callback ar plat plon) (allCircles s) s)
       (\<lambda>(filtered, s1). Array_sort ar (nearby_compare ar plat plon) filtered s1)"

section \<open>The specification's formula\<close>

text \<open>
  The haversine formula as the specification words it, evaluated in the arithmetic
  \<open>ar\<close>, on points given as pairs of latitude and longitude in degrees, with the fixed
  radius of 6,371,000 meters. The specification leaves the conversion to radians
  open; it is the argument \<open>radians\<close>. A square \<open>sin\<^sup>2 x\<close> is the product
  \<open>sin x \<cdot> sin x\<close>, and products are taken from left to right.
\<close>

definition greatCircleDistance_spec ::
  "'n arith \<Rightarrow> ('n \<Rightarrow> 'n) \<Rightarrow> 'n \<times> 'n \<Rightarrow> 'n \<times> 'n \<Rightarrow> 'n" where
  "greatCircleDistance_spec ar radians p1 p2 =
     (let lat1 = fst p1; lon1 = snd p1; lat2 = fst p2; lon2 = snd p2;
          dphi = radians (js_sub ar lat2 lat1);
          dlambda = radians (js_sub ar lon2 lon1);
          \<phi>1 = radians lat1;
          \<phi>2 = radians lat2;
          sin_dphi = Math_sin ar (js_div ar dphi (js_num ar 2));
          sin_dlambda = Math_sin ar (js_div ar dlambda (js_num ar 2));
          a = js_add ar (js_mul ar sin_dphi sin_dphi)
                (js_mul ar (js_mul ar (js_mul ar (Math_cos ar \<phi>1) (Math_cos ar \<phi>2))
                                      sin_dlambda)
                           sin_dlambda);
          c = js_mul ar (js_num ar 2)
                (Math_atan2 ar (Math_sqrt ar a) (Math_sqrt ar (js_sub ar (js_num ar 1) a)))
      in js_mul ar (js_num ar 6371000) c)"

section \<open>Properties of an arithmetic\<close>

text \<open>
  Two numbers are numerically equal when each is at most the other; \<^verbatim>\<open>NaN\<close> is
  equal to nothing.
\<close>

definition same_number :: "'n arith \<Rightarrow> 'n \<Rightarrow> 'n \<Rightarrow> bool" where
  "same_number ar a b \<longleftrightarrow> js_le ar a b \<and> js_le ar b a"

text \<open>
  The order of the numbers, as far as the sort depends on it: \<^verbatim>\<open><=\<close> is transitive,
  holds only between numbers that are at most themselves (which excludes \<^verbatim>\<open>NaN\<close>)
  and is total on those; and on those, a difference \<^verbatim>\<open>a - b\<close> is positive exactly
  when \<^verbatim>\<open>a <= b\<close> is false. Doubles have these properties (a difference of two
  distinct finite doubles is never rounded to zero, and the difference of two equal
  infinities is \<^verbatim>\<open>NaN\<close>, which is not positive).
\<close>

definition ordered_numbers :: "'n arith \<Rightarrow> bool" where
  "ordered_numbers ar \<longleftrightarrow>
     (\<forall>a b c. js_le ar a b \<longrightarrow> js_le ar b c \<longrightarrow> js_le ar a c) \<and>
     (\<forall>a b. js_le ar a b \<longrightarrow> js_le ar a a \<and> js_le ar b b) \<and>
     (\<forall>a b. js_le ar a a \<longrightarrow> js_le ar b b \<longrightarrow> js_le ar a b \<or> js_le ar b a) \<and>
     (\<forall>a b. js_le ar a a \<longrightarrow> js_le ar b b \<longrightarrow>
        (js_lt ar (js_num ar 0) (js_sub ar a b) \<longleftrightarrow> \<not> js_le ar a b))"

text \<open>
  The symmetry of the arithmetic under a change of sign \<open>neg\<close>: a difference changes
  sign when its operands are exchanged, or stays as it is (the difference of two equal
  doubles is \<^verbatim>\<open>+0\<close> either way); products and quotients follow the signs of their
  operands, the sine is odd, and the product is commutative. Doubles have these
  properties with \<open>neg\<close> the change of the sign bit.
\<close>

definition sign_symmetric :: "'n arith \<Rightarrow> ('n \<Rightarrow> 'n) \<Rightarrow> bool" where
  "sign_symmetric ar neg \<longleftrightarrow>
     (\<forall>a b. js_sub ar a b = neg (js_sub ar b a) \<or> js_sub ar a b = js_sub ar b a) \<and>
     (\<forall>x y. js_mul ar (neg x) y = neg (js_mul ar x y)) \<and>
     (\<forall>x y. js_div ar (neg x) y = neg (js_div ar x y)) \<and>
     (\<forall>x. Math_sin ar (neg x) = neg (Math_sin ar x)) \<and>
     (\<forall>x y. js_mul ar (neg x) (neg y) = js_mul ar x y) \<and>
     (\<forall>x y. js_mul ar x y = js_mul ar y x)"

section \<open>Auxiliary definitions\<close>

text \<open>
  The term under the square roots in exact arithmetic, as a function of the two
  latitudes and of the difference of the longitudes, all in radians. It is used in the
  proofs only.
\<close>

definition haversine :: "real \<Rightarrow> real \<Rightarrow> real \<Rightarrow> real" where
  "haversine x y l =
     sin ((y - x) / 2) * sin ((y - x) / 2) + cos x * cos y * sin (l / 2) * sin (l / 2)"

text \<open>
  The contents of the array that \<^const>\<open>findNearbyCircles\<close> returns, as a function of the
  contents of \<^verbatim>\<open>allCircles\<close>.
\<close>

definition nearby_list :: "'n arith \<Rightarrow> 'n \<Rightarrow> 'n \<Rightarrow> 'n circle list \<Rightarrow> 'n circle list" where
  "nearby_list ar plat plon cs =
     sort_by ar (nearby_compare ar plat plon) (filter (nearby_callback ar plat plon) cs)"

text \<open>The contents of the array that a call returned, read from the state it left.\<close>

fun result_contents :: "(ref \<times> 'n state) option \<Rightarrow> 'n circle list option" where
  "result_contents None = None"
| "result_contents (Some (r, s')) = arrays s' r"

section \<open>Example data\<close>

text \<open>
  Examples are evaluated in exact arithmetic: an article at latitude 0, longitude 0;
  circles around that point and around the opposite point of the equator, at distance
  \<open>6371000 \<cdot> \<pi>\<close>; and the state of the script once \<^verbatim>\<open>allCircles\<close> has been assigned
  an array with the given circles.
\<close>

definition article_origin :: "real article" where
  "article_origin =
     \<lparr>pageid = 1, ns = 0, title = ''Origin'', lat = 0, lon = 0, dist_article = 0,
      primary = ''primary'', lang = ''en''\<rparr>"

definition circle_origin :: "real circle" where
  "circle_origin =
     \<lparr>id_circle = ''o'', name = ''origin'', center = (0, 0), radius = 0,
      color = ''#ff0000'', articles = None\<rparr>"

definition circle_negative :: "real circle" where
  "circle_negative =
     \<lparr>id_circle = ''n'', name = ''negative'', center = (0, 0), radius = - 1,
      color = ''#00ff00'', articles = Some []\<rparr>"

definition circle_far_small :: "real circle" where
  "circle_far_small =
     \<lparr>id_circle = ''s'', name = ''far and small'', center = (0, 180), radius = 5,
      color = ''#0000ff'', articles = Some [1]\<rparr>"

definition circle_far_large :: "real circle" where
  "circle_far_large =
     \<lparr>id_circle = ''l'', name = ''far and large'', center = (0, 180), radius = 30000000,
      color = ''#0000ff'', articles = None\<rparr>"

definition circle_far_boundary :: "real circle" where
  "circle_far_boundary =
     \<lparr>id_circle = ''b'', name = ''far, boundary'', center = (0, 180),
      radius = 6371000 * pi, color = ''#000000'', articles = None\<rparr>"

definition state_with :: "'n circle list \<Rightarrow> 'n state" where
  "state_with cs =
     \<lparr>arrays = [0 \<mapsto> cs], next_ref = 1, selectedArticles = [],
      selectedArticleTitles = [], currentCircleId = None, circleData = None,
      allCircles = 0, currentArticleForAssignment = None,
      currentArticleLocation = None\<rparr>"

section \<open>The exact arithmetic\<close>

lemma exact_simps:
  "js_num exact = of_int" "js_add exact = (+)" "js_sub exact = (-)" "js_mul exact = (*)"
  "js_div exact = (/)" "js_le exact = (\<le>)" "js_lt exact = (<)" "Math_PI exact = pi"
  "Math_sin exact = sin" "Math_cos exact = cos" "Math_sqrt exact = sqrt"
  "Math_atan2 exact = atan2"
  by (simp_all add: exact_def)

lemma ordered_numbers_exact: "ordered_numbers exact"
  by (auto simp add: ordered_numbers_def exact_simps)

lemma sign_symmetric_exact: "sign_symmetric exact uminus"
  by (simp add: sign_symmetric_def exact_simps)

lemma getDistance_exact:
  "getDistanceFromLatLonInM exact lat1 lon1 lat2 lon2 =
     6371000 * (2 * atan2 (sqrt (haversine (lat1 * (pi / 180)) (lat2 * (pi / 180))
                                           ((lon2 - lon1) * (pi / 180))))
                          (sqrt (1 - haversine (lat1 * (pi / 180)) (lat2 * (pi / 180))
                                               ((lon2 - lon1) * (pi / 180)))))"
  by (simp add: getDistanceFromLatLonInM_def deg2rad_def Let_def haversine_def exact_simps
        left_diff_distrib diff_divide_distrib)

lemma calculateDistance_exact:
  "calculateDistance exact lat1 lon1 lat2 lon2 = getDistanceFromLatLonInM exact lat1 lon1 lat2 lon2"
  by (simp add: calculateDistance_def getDistanceFromLatLonInM_def deg2rad_def Let_def
        exact_simps)

subsection \<open>The haversine term lies between 0 and 1\<close>

lemma half_angle_sum:
  fixes x y :: real
  shows "sin ((y - x) / 2) * sin ((y - x) / 2) + cos x * cos y
       = cos ((x + y) / 2) * cos ((x + y) / 2)"
proof -
  have s: "sin ((y - x) / 2) * sin ((y - x) / 2) = (1 - cos (y - x)) / 2"
    by (simp add: sin_times_sin)
  have c: "cos ((x + y) / 2) * cos ((x + y) / 2) = (1 + cos (x + y)) / 2"
    by (simp add: cos_times_cos)
  have m: "cos x * cos y = (cos (y - x) + cos (x + y)) / 2"
    using cos_times_cos [of y x] by (simp add: add.commute mult.commute)
  show ?thesis unfolding s c m by (simp add: field_simps)
qed

lemma sq_sin_bounds: "0 \<le> sin t * sin t" "sin t * sin t \<le> 1" for t :: real
proof -
  show "0 \<le> sin t * sin t" by simp
  have "(sin t)\<^sup>2 \<le> 1" using abs_sin_le_one [of t] by (simp add: abs_square_le_1)
  then show "sin t * sin t \<le> 1" by (simp add: power2_eq_square)
qed

lemma sq_cos_bounds: "0 \<le> cos t * cos t" "cos t * cos t \<le> 1" for t :: real
proof -
  show "0 \<le> cos t * cos t" by simp
  have "(cos t)\<^sup>2 \<le> 1" using abs_cos_le_one [of t] by (simp add: abs_square_le_1)
  then show "cos t * cos t \<le> 1" by (simp add: power2_eq_square)
qed

lemma mix_bounds:
  fixes w p q :: real
  assumes "0 \<le> w" "w \<le> 1" "0 \<le> p" "p \<le> 1" "0 \<le> q" "q \<le> 1"
  shows "0 \<le> (1 - w) * p + w * q" and "(1 - w) * p + w * q \<le> 1"
proof -
  show "0 \<le> (1 - w) * p + w * q" using assms by simp
  have "(1 - w) * p \<le> (1 - w) * 1" using assms by (intro mult_left_mono) auto
  moreover have "w * q \<le> w * 1" using assms by (intro mult_left_mono) auto
  ultimately show "(1 - w) * p + w * q \<le> 1" by simp
qed

lemma haversine_mix:
  "haversine x y l = (1 - sin (l / 2) * sin (l / 2)) * (sin ((y - x) / 2) * sin ((y - x) / 2))
             + sin (l / 2) * sin (l / 2) * (cos ((x + y) / 2) * cos ((x + y) / 2))"
  unfolding haversine_def half_angle_sum [symmetric] by (simp add: algebra_simps)


lemma haversine_le1: "haversine x y l \<le> 1"
  unfolding haversine_mix by (rule mix_bounds(2)) (rule sq_sin_bounds sq_cos_bounds)+

lemma haversine_sym: "haversine y x (- l) = haversine x y l"
proof -
  have "(x - y) / 2 = - ((y - x) / 2)" by (simp add: field_simps)
  then have "sin ((x - y) / 2) = - sin ((y - x) / 2)" by (metis sin_minus)
  moreover have "sin (- l / 2) = - sin (l / 2)" by simp
  ultimately show ?thesis by (simp add: haversine_def mult.commute)
qed

lemma haversine_self: "haversine x x 0 = 0"
  by (simp add: haversine_def)

subsection \<open>atan2\<close>


lemma atan2_zero_one: "atan2 0 1 = 0"
  by (simp add: atan2_def)

subsection \<open>The two distance functions in the exact arithmetic\<close>


lemma getDistance_exact_sym:
  "getDistanceFromLatLonInM exact lat2 lon2 lat1 lon1
     = getDistanceFromLatLonInM exact lat1 lon1 lat2 lon2"
proof -
  have "(- (lon2 - lon1)) * (pi / 180) = - ((lon2 - lon1) * (pi / 180))"
    by (rule mult_minus_left)
  then have "(lon1 - lon2) * (pi / 180) = - ((lon2 - lon1) * (pi / 180))"
    by simp
  then show ?thesis unfolding getDistance_exact by (simp only: haversine_sym)
qed

lemma getDistance_exact_self: "getDistanceFromLatLonInM exact la lo la lo = 0"
  unfolding getDistance_exact by (simp add: haversine_self atan2_zero_one)

subsection \<open>Symmetry of the distance in a sign-symmetric arithmetic\<close>

lemma sign_symmetricD:
  assumes "sign_symmetric ar neg"
  shows "js_sub ar a b = neg (js_sub ar b a) \<or> js_sub ar a b = js_sub ar b a"
    and "js_mul ar (neg x) y = neg (js_mul ar x y)"
    and "js_div ar (neg x) y = neg (js_div ar x y)"
    and "Math_sin ar (neg x) = neg (Math_sin ar x)"
    and "js_mul ar (neg x) (neg y) = js_mul ar x y"
    and "js_mul ar x y = js_mul ar y x"
  using assms unfolding sign_symmetric_def by blast+

lemma sin_half_exchange:
  assumes "sign_symmetric ar neg"
  shows "Math_sin ar (js_div ar (deg2rad ar (js_sub ar a b)) k)
           = neg (Math_sin ar (js_div ar (deg2rad ar (js_sub ar b a)) k)) \<or>
         Math_sin ar (js_div ar (deg2rad ar (js_sub ar a b)) k)
           = Math_sin ar (js_div ar (deg2rad ar (js_sub ar b a)) k)"
proof -
  note sym = sign_symmetricD [OF assms]
  from sym(1) [of a b] show ?thesis
  proof
    assume e: "js_sub ar a b = neg (js_sub ar b a)"
    show ?thesis unfolding e by (simp only: deg2rad_def sym(2) sym(3) sym(4) simp_thms)
  next
    assume "js_sub ar a b = js_sub ar b a"
    then show ?thesis by simp
  qed
qed

lemma square_after_exchange:
  assumes "sign_symmetric ar neg"
    and "t = neg u \<or> t = u"
  shows "js_mul ar t t = js_mul ar u u"
  using assms(2) sign_symmetricD(5) [OF assms(1), of u u] by auto

lemma product_after_exchange:
  assumes "sign_symmetric ar neg"
    and "t = neg u \<or> t = u"
  shows "js_mul ar (js_mul ar (js_mul ar c2 c1) t) t = js_mul ar (js_mul ar (js_mul ar c1 c2) u) u"
proof -
  note sym = sign_symmetricD [OF assms(1)]
  have c: "js_mul ar c2 c1 = js_mul ar c1 c2" by (rule sym(6))
  from assms(2) show ?thesis
  proof
    assume t: "t = neg u"
    have "js_mul ar (js_mul ar c1 c2) (neg u) = neg (js_mul ar (js_mul ar c1 c2) u)"
      using sym(6) [of "js_mul ar c1 c2" "neg u"] sym(2) [of u "js_mul ar c1 c2"]
            sym(6) [of u "js_mul ar c1 c2"]
      by simp
    then show ?thesis unfolding c t by (simp only: sym(5))
  next
    assume "t = u"
    then show ?thesis by (simp add: c)
  qed
qed

lemma getDistance_exchange:
  assumes "sign_symmetric ar neg"
  shows "getDistanceFromLatLonInM ar lat2 lon2 lat1 lon1
           = getDistanceFromLatLonInM ar lat1 lon1 lat2 lon2"
proof -
  have a: "js_mul ar (Math_sin ar (js_div ar (deg2rad ar (js_sub ar lat1 lat2)) (js_num ar 2)))
                     (Math_sin ar (js_div ar (deg2rad ar (js_sub ar lat1 lat2)) (js_num ar 2)))
         = js_mul ar (Math_sin ar (js_div ar (deg2rad ar (js_sub ar lat2 lat1)) (js_num ar 2)))
                     (Math_sin ar (js_div ar (deg2rad ar (js_sub ar lat2 lat1)) (js_num ar 2)))"
    by (rule square_after_exchange [OF assms sin_half_exchange [OF assms]])
  have b: "js_mul ar
             (js_mul ar
                (js_mul ar (Math_cos ar (deg2rad ar lat2)) (Math_cos ar (deg2rad ar lat1)))
                (Math_sin ar (js_div ar (deg2rad ar (js_sub ar lon1 lon2)) (js_num ar 2))))
             (Math_sin ar (js_div ar (deg2rad ar (js_sub ar lon1 lon2)) (js_num ar 2)))
         = js_mul ar
             (js_mul ar
                (js_mul ar (Math_cos ar (deg2rad ar lat1)) (Math_cos ar (deg2rad ar lat2)))
                (Math_sin ar (js_div ar (deg2rad ar (js_sub ar lon2 lon1)) (js_num ar 2))))
             (Math_sin ar (js_div ar (deg2rad ar (js_sub ar lon2 lon1)) (js_num ar 2)))"
    by (rule product_after_exchange [OF assms sin_half_exchange [OF assms]])
  show ?thesis
    unfolding getDistanceFromLatLonInM_def Let_def a b by (rule refl)
qed

section \<open>Sorting, selection and the run of findNearbyCircles\<close>

subsection \<open>The sort permutes\<close>

lemma set_insert_by: "set (insert_by ar f x ys) = insert x (set ys)"
  by (induction ys) auto

lemma set_sort_by: "set (sort_by ar f xs) = set xs"
  by (induction xs) (simp_all add: set_insert_by)

lemma filter_insert_by_other:
  "\<not> P x \<Longrightarrow> filter P (insert_by ar f x ys) = filter P ys"
  by (induction ys) simp_all

subsection \<open>The sort orders by the keys, stably, in an ordered arithmetic\<close>

lemma ordered_numbersD:
  assumes "ordered_numbers ar"
  shows "js_le ar a b \<Longrightarrow> js_le ar b c \<Longrightarrow> js_le ar a c"
    and "js_le ar a b \<Longrightarrow> js_le ar a a"
    and "js_le ar a b \<Longrightarrow> js_le ar b b"
    and "js_le ar a a \<Longrightarrow> js_le ar b b \<Longrightarrow> js_le ar a b \<or> js_le ar b a"
    and "js_le ar a a \<Longrightarrow> js_le ar b b \<Longrightarrow>
           js_lt ar (js_num ar 0) (js_sub ar a b) \<longleftrightarrow> \<not> js_le ar a b"
proof -
  from assms have trans: "\<forall>a b c. js_le ar a b \<longrightarrow> js_le ar b c \<longrightarrow> js_le ar a c"
    and refl: "\<forall>a b. js_le ar a b \<longrightarrow> js_le ar a a \<and> js_le ar b b"
    and total: "\<forall>a b. js_le ar a a \<longrightarrow> js_le ar b b \<longrightarrow> js_le ar a b \<or> js_le ar b a"
    and sign: "\<forall>a b. js_le ar a a \<longrightarrow> js_le ar b b \<longrightarrow>
                 (js_lt ar (js_num ar 0) (js_sub ar a b) \<longleftrightarrow> \<not> js_le ar a b)"
    unfolding ordered_numbers_def by (rule conjunct1, rule conjunct2 [THEN conjunct1],
      rule conjunct2 [THEN conjunct2, THEN conjunct1],
      rule conjunct2 [THEN conjunct2, THEN conjunct2])
  show "js_le ar a b \<Longrightarrow> js_le ar b c \<Longrightarrow> js_le ar a c"
    using trans by (elim allE [of _ a] allE [of _ b] allE [of _ c] impE) assumption+
  show "js_le ar a b \<Longrightarrow> js_le ar a a" using refl by fast
  show "js_le ar a b \<Longrightarrow> js_le ar b b" using refl by fast
  show "js_le ar a a \<Longrightarrow> js_le ar b b \<Longrightarrow> js_le ar a b \<or> js_le ar b a"
    using total by fast
  show "js_le ar a a \<Longrightarrow> js_le ar b b \<Longrightarrow>
           js_lt ar (js_num ar 0) (js_sub ar a b) \<longleftrightarrow> \<not> js_le ar a b"
    using sign by fast
qed

lemma sorted_insert_by:
  assumes ord: "ordered_numbers ar"
    and x: "js_le ar (k x) (k x)"
    and ys: "\<forall>y\<in>set ys. js_le ar (k y) (k y)"
    and sorted: "sorted_wrt (\<lambda>a b. js_le ar (k a) (k b)) ys"
  shows "sorted_wrt (\<lambda>a b. js_le ar (k a) (k b)) (insert_by ar (\<lambda>a b. js_sub ar (k a) (k b)) x ys)"
  using ys sorted
proof (induction ys)
  case Nil
  then show ?case by simp
next
  case (Cons y ys)
  have y: "js_le ar (k y) (k y)" using Cons.prems(1) by simp
  show ?case
  proof (cases "js_le ar (k x) (k y)")
    case True
    then have "\<not> js_lt ar (js_num ar 0) (js_sub ar (k x) (k y))"
      using ordered_numbersD(5) [OF ord x y] by simp
    moreover have "\<forall>z\<in>set ys. js_le ar (k x) (k z)"
      using Cons.prems(2) True ordered_numbersD(1) [OF ord] by auto
    ultimately show ?thesis using Cons.prems(2) True by simp
  next
    case False
    then have pos: "js_lt ar (js_num ar 0) (js_sub ar (k x) (k y))"
      using ordered_numbersD(5) [OF ord x y] by simp
    have yx: "js_le ar (k y) (k x)"
      using False ordered_numbersD(4) [OF ord x y] by blast
    have "sorted_wrt (\<lambda>a b. js_le ar (k a) (k b)) (insert_by ar (\<lambda>a b. js_sub ar (k a) (k b)) x ys)"
      using Cons.IH Cons.prems by simp
    then show ?thesis using pos yx Cons.prems(2) by (simp add: set_insert_by)
  qed
qed

lemma sorted_sort_by:
  assumes ord: "ordered_numbers ar"
    and xs: "\<forall>x\<in>set xs. js_le ar (k x) (k x)"
  shows "sorted_wrt (\<lambda>a b. js_le ar (k a) (k b)) (sort_by ar (\<lambda>a b. js_sub ar (k a) (k b)) xs)"
  using xs
proof (induction xs)
  case Nil
  then show ?case by simp
next
  case (Cons x xs)
  then show ?case
    by (simp add: sorted_insert_by [OF ord] set_sort_by)
qed

lemma filter_insert_by_same:
  assumes ord: "ordered_numbers ar"
    and x: "same_number ar (k x) v"
    and ys: "\<forall>y\<in>set ys. js_le ar (k y) (k y)"
    and sorted: "sorted_wrt (\<lambda>a b. js_le ar (k a) (k b)) ys"
  shows "filter (\<lambda>c. same_number ar (k c) v) (insert_by ar (\<lambda>a b. js_sub ar (k a) (k b)) x ys)
           = x # filter (\<lambda>c. same_number ar (k c) v) ys"
  using ys sorted
proof (induction ys)
  case Nil
  then show ?case using x by simp
next
  case (Cons y ys)
  have xx: "js_le ar (k x) (k x)"
    using x ordered_numbersD(2) [OF ord] by (auto simp add: same_number_def)
  have y: "js_le ar (k y) (k y)" using Cons.prems(1) by simp
  show ?case
  proof (cases "js_le ar (k x) (k y)")
    case True
    then have "\<not> js_lt ar (js_num ar 0) (js_sub ar (k x) (k y))"
      using ordered_numbersD(5) [OF ord xx y] by simp
    then show ?thesis using x by simp
  next
    case False
    then have pos: "js_lt ar (js_num ar 0) (js_sub ar (k x) (k y))"
      using ordered_numbersD(5) [OF ord xx y] by simp
    have "\<not> same_number ar (k y) v"
    proof
      assume "same_number ar (k y) v"
      then have "js_le ar (k x) (k y)"
        using x ordered_numbersD(1) [OF ord, of "k x" v "k y"] by (simp add: same_number_def)
      with False show False by simp
    qed
    moreover have "filter (\<lambda>c. same_number ar (k c) v)
                     (insert_by ar (\<lambda>a b. js_sub ar (k a) (k b)) x ys)
                   = x # filter (\<lambda>c. same_number ar (k c) v) ys"
      using Cons.IH Cons.prems by simp
    ultimately show ?thesis using pos by simp
  qed
qed

lemma stable_sort_by:
  assumes ord: "ordered_numbers ar"
    and xs: "\<forall>x\<in>set xs. js_le ar (k x) (k x)"
  shows "filter (\<lambda>c. same_number ar (k c) v) (sort_by ar (\<lambda>a b. js_sub ar (k a) (k b)) xs)
           = filter (\<lambda>c. same_number ar (k c) v) xs"
  using xs
proof (induction xs)
  case Nil
  then show ?case by simp
next
  case (Cons x xs)
  show ?case
  proof (cases "same_number ar (k x) v")
    case True
    have "filter (\<lambda>c. same_number ar (k c) v)
            (insert_by ar (\<lambda>a b. js_sub ar (k a) (k b)) x
               (sort_by ar (\<lambda>a b. js_sub ar (k a) (k b)) xs))
          = x # filter (\<lambda>c. same_number ar (k c) v)
                  (sort_by ar (\<lambda>a b. js_sub ar (k a) (k b)) xs)"
      using Cons.prems
      by (intro filter_insert_by_same [where k = k, OF ord True]
            sorted_sort_by [where k = k, OF ord])
         (simp_all add: set_sort_by)
    then show ?thesis using True Cons.IH Cons.prems by simp
  next
    case False
    then show ?thesis using Cons.IH Cons.prems by (simp add: filter_insert_by_other)
  qed
qed

subsection \<open>The run of findNearbyCircles\<close>

lemma nearby_compare_difference:
  "nearby_compare ar plat plon =
     (\<lambda>a b. js_sub ar (calculateDistance ar plat plon (fst (center a)) (snd (center a)))
                      (calculateDistance ar plat plon (fst (center b)) (snd (center b))))"
  by (simp add: fun_eq_iff nearby_compare_def Let_def)

lemma nearby_callback_iff:
  "nearby_callback ar plat plon c \<longleftrightarrow>
     js_le ar (calculateDistance ar plat plon (fst (center c)) (snd (center c))) (js_num ar 1000) \<or>
     js_le ar (calculateDistance ar plat plon (fst (center c)) (snd (center c))) (radius c)"
  by (simp add: nearby_callback_def Let_def)

lemma findNearbyCircles_run:
  assumes "arrays s (allCircles s) = Some cs"
  shows "findNearbyCircles ar plat plon s =
           Some (next_ref s,
                 s\<lparr>arrays := (arrays s)(next_ref s \<mapsto> nearby_list ar plat plon cs),
                   next_ref := Suc (next_ref s)\<rparr>)"
  using assms
  by (simp add: findNearbyCircles_def Array_filter_def Array_sort_def nearby_list_def)

lemma set_nearby_list:
  "c \<in> set (nearby_list ar plat plon cs) \<longleftrightarrow>
     c \<in> set cs \<and>
     (js_le ar (calculateDistance ar plat plon (fst (center c)) (snd (center c))) (js_num ar 1000) \<or>
      js_le ar (calculateDistance ar plat plon (fst (center c)) (snd (center c))) (radius c))"
  by (simp add: nearby_list_def set_sort_by nearby_callback_iff)

lemma selected_keys_are_numbers:
  assumes "ordered_numbers ar"
  shows "\<forall>c\<in>set (filter (nearby_callback ar plat plon) cs).
           js_le ar (calculateDistance ar plat plon (fst (center c)) (snd (center c)))
                    (calculateDistance ar plat plon (fst (center c)) (snd (center c)))"
  using ordered_numbersD(2) [OF assms] by (auto simp add: nearby_callback_iff)

lemma sorted_nearby_list:
  assumes "ordered_numbers ar"
  shows "sorted_wrt
           (\<lambda>a b. js_le ar (calculateDistance ar plat plon (fst (center a)) (snd (center a)))
                            (calculateDistance ar plat plon (fst (center b)) (snd (center b))))
           (nearby_list ar plat plon cs)"
  unfolding nearby_list_def nearby_compare_difference
  by (rule sorted_sort_by [OF assms selected_keys_are_numbers [OF assms]])

lemma stable_nearby_list:
  assumes "ordered_numbers ar"
  shows "filter (\<lambda>c. same_number ar
                       (calculateDistance ar plat plon (fst (center c)) (snd (center c))) v)
           (nearby_list ar plat plon cs)
       = filter (\<lambda>c. same_number ar
                       (calculateDistance ar plat plon (fst (center c)) (snd (center c))) v \<and>
                     (js_le ar (calculateDistance ar plat plon (fst (center c)) (snd (center c)))
                               (js_num ar 1000) \<or>
                      js_le ar (calculateDistance ar plat plon (fst (center c)) (snd (center c)))
                               (radius c))) cs"
proof -
  let ?k = "\<lambda>c. calculateDistance ar plat plon (fst (center c)) (snd (center c))"
  have "filter (\<lambda>c. same_number ar (?k c) v) (nearby_list ar plat plon cs)
          = filter (\<lambda>c. same_number ar (?k c) v) (filter (nearby_callback ar plat plon) cs)"
    unfolding nearby_list_def nearby_compare_difference
    by (rule stable_sort_by [where k = ?k, OF assms selected_keys_are_numbers [OF assms]])
  also have "\<dots> = filter (\<lambda>c. same_number ar (?k c) v \<and>
                               (js_le ar (?k c) (js_num ar 1000) \<or> js_le ar (?k c) (radius c))) cs"
    by (simp add: nearby_callback_iff conj_commute)
  finally show ?thesis .
qed

section \<open>The examples evaluated\<close>

lemma distance_origin_origin:
  "calculateDistance exact 0 0 0 0 = 0" "getDistanceFromLatLonInM exact 0 0 0 0 = 0"
  by (simp_all add: calculateDistance_exact getDistance_exact_self)

lemma distance_origin_antipode:
  "calculateDistance exact 0 0 0 180 = 6371000 * pi"
  "getDistanceFromLatLonInM exact 0 0 0 180 = 6371000 * pi"
  "getDistanceFromLatLonInM exact 0 180 0 0 = 6371000 * pi"
proof -
  show a: "getDistanceFromLatLonInM exact 0 0 0 180 = 6371000 * pi"
    by (simp add: getDistanceFromLatLonInM_def deg2rad_def exact_simps atan2_def)
  then show "calculateDistance exact 0 0 0 180 = 6371000 * pi"
    by (simp add: calculateDistance_exact)
  show "getDistanceFromLatLonInM exact 0 180 0 0 = 6371000 * pi"
    using a by (simp add: getDistance_exact_sym [of 0 0 0 180])
qed

lemma antipode_beyond_threshold: "\<not> 6371000 * pi \<le> 1000"
  using pi_ge_two by simp

lemma pi_not_nonpositive: "\<not> pi \<le> 0"
  using pi_gt_zero by linarith

lemma pi_nonzero: "pi \<noteq> 0"
  using pi_gt_zero by linarith

lemma antipode_beyond_5: "\<not> 6371000 * pi \<le> 5"
  using pi_ge_two by simp

lemma antipode_within_large: "6371000 * pi \<le> 30000000"
  using pi_less_4 by simp

lemmas example_circles =
  circle_origin_def circle_negative_def circle_far_small_def circle_far_large_def

lemmas example_distances =
  distance_origin_origin distance_origin_antipode antipode_beyond_threshold
  antipode_beyond_5 antipode_within_large pi_not_nonpositive pi_nonzero

lemma state_with_allCircles: "arrays (state_with cs) (allCircles (state_with cs)) = Some cs"
  by (simp add: state_with_def)

lemma findNearbyCircles_example:
  "findNearbyCircles exact 0 0 (state_with [circle_far_large, circle_far_small, circle_negative]) =
     Some (1, (state_with [circle_far_large, circle_far_small, circle_negative])
                \<lparr>arrays := [0 \<mapsto> [circle_far_large, circle_far_small, circle_negative],
                             1 \<mapsto> [circle_negative, circle_far_large]],
                  next_ref := 2\<rparr>)"
  by (simp add: findNearbyCircles_def Array_filter_def Array_sort_def state_with_def
        nearby_callback_def nearby_compare_def Let_def example_circles example_distances
        exact_simps)

lemma greatCircleDistance_spec_exact:
  "greatCircleDistance_spec exact (\<lambda>x. x * pi / 180) (lat1, lon1) (lat2, lon2) =
     6371000 * (2 * atan2
       (sqrt ((sin ((lat2 - lat1) * pi / 180 / 2))\<^sup>2 +
              cos (lat1 * pi / 180) * cos (lat2 * pi / 180) *
              (sin ((lon2 - lon1) * pi / 180 / 2))\<^sup>2))
       (sqrt (1 - ((sin ((lat2 - lat1) * pi / 180 / 2))\<^sup>2 +
                   cos (lat1 * pi / 180) * cos (lat2 * pi / 180) *
                   (sin ((lon2 - lon1) * pi / 180 / 2))\<^sup>2))))"
  by (simp add: greatCircleDistance_spec_def Let_def exact_simps power2_eq_square mult.assoc)

section \<open>Claims about the distance\<close>


text \<open>
  C7. In exact arithmetic the distance from a point to itself is exactly 0, for both
  distance functions.
\<close>

theorem distance_to_self_is_zero:
  "getDistanceFromLatLonInM exact la lo la lo = 0 \<and> calculateDistance exact la lo la lo = 0"
  by (simp add: calculateDistance_exact getDistance_exact_self)

text \<open>
  C8. In exact arithmetic the distance is symmetric in its two points, for both
  distance functions.
\<close>

theorem distance_symmetric:
  "getDistanceFromLatLonInM exact lat1 lon1 lat2 lon2
     = getDistanceFromLatLonInM exact lat2 lon2 lat1 lon1 \<and>
   calculateDistance exact lat1 lon1 lat2 lon2 = calculateDistance exact lat2 lon2 lat1 lon1"
  by (simp add: calculateDistance_exact getDistance_exact_sym [of lat1 lon1 lat2 lon2])

section \<open>Claims about findNearbyCircles\<close>

text \<open>
  C1. In every arithmetic, whenever \<^verbatim>\<open>allCircles\<close> refers to an array,
  \<^const>\<open>findNearbyCircles\<close> returns an array that holds a circle if and only if the
  circle is in \<^verbatim>\<open>allCircles\<close> and the distance that \<^const>\<open>calculateDistance\<close> returns
  from the query point to its center is at most the threshold of 1000 meters or at most
  the circle's own radius, by the comparison \<^verbatim>\<open><=\<close> of the arithmetic. Either
  condition alone suffices. The source has the threshold as the constant 1000.
\<close>

theorem findNearbyCircles_selection:
  assumes "arrays s (allCircles s) = Some cs"
  shows "\<exists>r s' out. findNearbyCircles ar plat plon s = Some (r, s') \<and> arrays s' r = Some out \<and>
           (\<forall>c. c \<in> set out \<longleftrightarrow>
                  c \<in> set cs \<and>
                  (js_le ar (calculateDistance ar plat plon (fst (center c)) (snd (center c)))
                            (js_num ar 1000) \<or>
                   js_le ar (calculateDistance ar plat plon (fst (center c)) (snd (center c)))
                            (radius c)))"
proof -
  let ?s' = "s\<lparr>arrays := (arrays s)(next_ref s \<mapsto> nearby_list ar plat plon cs),
                next_ref := Suc (next_ref s)\<rparr>"
  have "findNearbyCircles ar plat plon s = Some (next_ref s, ?s')"
    by (rule findNearbyCircles_run [OF assms])
  moreover have "arrays ?s' (next_ref s) = Some (nearby_list ar plat plon cs)" by simp
  ultimately show ?thesis using set_nearby_list [of _ ar plat plon cs] by blast
qed

theorem findNearbyCircles_selection_witness:
  "\<exists>r s' out. findNearbyCircles exact 0 0
                  (state_with [circle_far_large, circle_far_small, circle_negative])
                  = Some (r, s') \<and> arrays s' r = Some out \<and>
               circle_negative \<in> set out \<and> circle_far_large \<in> set out \<and>
               circle_far_small \<notin> set out"
proof -
  let ?cs = "[circle_far_large, circle_far_small, circle_negative]"
  obtain r s' out where run: "findNearbyCircles exact 0 0 (state_with ?cs) = Some (r, s')"
      and out: "arrays s' r = Some out"
      and sel: "\<And>c. c \<in> set out \<longleftrightarrow>
                  c \<in> set ?cs \<and>
                  (js_le exact (calculateDistance exact 0 0 (fst (center c)) (snd (center c)))
                               (js_num exact 1000) \<or>
                   js_le exact (calculateDistance exact 0 0 (fst (center c)) (snd (center c)))
                               (radius c))"
    using findNearbyCircles_selection
            [OF state_with_allCircles [of ?cs], where ar = exact and plat = 0 and plon = 0]
    by blast
  have "circle_negative \<in> set out"
    unfolding sel by (simp add: example_circles example_distances exact_simps)
  moreover have "circle_far_large \<in> set out"
    unfolding sel by (simp add: example_circles example_distances exact_simps)
  moreover have "circle_far_small \<notin> set out"
    unfolding sel by (simp add: example_circles example_distances exact_simps)
  ultimately show ?thesis using run out by blast
qed

text \<open>
  C3. In an arithmetic with the order of \<^const>\<open>ordered_numbers\<close>, the array
  \<^const>\<open>findNearbyCircles\<close> returns is ordered by ascending distance from the query
  point to the circles' centers, the distances being those \<^const>\<open>calculateDistance\<close>
  returns; and the circles whose distance is numerically equal to any one number \<open>v\<close>
  keep the order they have in \<^verbatim>\<open>allCircles\<close>.
\<close>

theorem findNearbyCircles_sorted_stable:
  assumes "ordered_numbers ar"
      and "arrays s (allCircles s) = Some cs"
  shows "\<exists>r s' out. findNearbyCircles ar plat plon s = Some (r, s') \<and> arrays s' r = Some out \<and>
           sorted_wrt
             (\<lambda>a b. js_le ar (calculateDistance ar plat plon (fst (center a)) (snd (center a)))
                              (calculateDistance ar plat plon (fst (center b)) (snd (center b))))
             out \<and>
           (\<forall>v. filter (\<lambda>c. same_number ar
                              (calculateDistance ar plat plon (fst (center c)) (snd (center c))) v)
                   out
               = filter (\<lambda>c. same_number ar
                              (calculateDistance ar plat plon (fst (center c)) (snd (center c))) v \<and>
                            (js_le ar (calculateDistance ar plat plon (fst (center c)) (snd (center c)))
                                      (js_num ar 1000) \<or>
                             js_le ar (calculateDistance ar plat plon (fst (center c)) (snd (center c)))
                                      (radius c)))
                   cs)"
proof -
  let ?s' = "s\<lparr>arrays := (arrays s)(next_ref s \<mapsto> nearby_list ar plat plon cs),
                next_ref := Suc (next_ref s)\<rparr>"
  have "findNearbyCircles ar plat plon s = Some (next_ref s, ?s')"
    by (rule findNearbyCircles_run [OF assms(2)])
  moreover have "arrays ?s' (next_ref s) = Some (nearby_list ar plat plon cs)" by simp
  ultimately show ?thesis
    using sorted_nearby_list [OF assms(1), of plat plon cs]
          stable_nearby_list [OF assms(1), of plat plon _ cs]
    by blast
qed

theorem findNearbyCircles_sorted_stable_witness:
  "\<exists>r s' out. findNearbyCircles exact 0 0
                  (state_with [circle_far_large, circle_negative, circle_origin])
                  = Some (r, s') \<and> arrays s' r = Some out \<and>
               sorted (map (\<lambda>c. calculateDistance exact 0 0 (fst (center c)) (snd (center c))) out) \<and>
               filter (\<lambda>c. calculateDistance exact 0 0 (fst (center c)) (snd (center c)) = 0) out
                 = [circle_negative, circle_origin]"
proof -
  let ?cs = "[circle_far_large, circle_negative, circle_origin]"
  let ?d = "\<lambda>c::real circle. calculateDistance exact 0 0 (fst (center c)) (snd (center c))"
  obtain r s' out where run: "findNearbyCircles exact 0 0 (state_with ?cs) = Some (r, s')"
      and out: "arrays s' r = Some out"
      and asc: "sorted_wrt (\<lambda>a b. js_le exact (?d a) (?d b)) out"
      and stable: "\<And>v. filter (\<lambda>c. same_number exact (?d c) v) out =
                     filter (\<lambda>c. same_number exact (?d c) v \<and>
                                  (js_le exact (?d c) (js_num exact 1000) \<or>
                                   js_le exact (?d c) (radius c))) ?cs"
    using findNearbyCircles_sorted_stable
            [OF ordered_numbers_exact state_with_allCircles [of ?cs],
             where plat = 0 and plon = 0]
    by blast
  have same: "same_number exact x 0 \<longleftrightarrow> x = 0" for x
    by (auto simp add: same_number_def exact_simps)
  have "filter (\<lambda>c. ?d c = 0) out = [circle_negative, circle_origin]"
    using stable [of 0] unfolding same
    by (simp add: example_circles example_distances exact_simps)
  moreover have "sorted (map ?d out)"
    using asc by (simp add: sorted_map exact_simps)
  ultimately show ?thesis using run out by blast
qed

text \<open>
  C9. In every arithmetic and in a state where the references from the allocation
  counter on are unused, \<^const>\<open>findNearbyCircles\<close> returns a reference that was not
  allocated before the call, holds an array after it and differs from
  \<^verbatim>\<open>allCircles\<close>; after the call \<^verbatim>\<open>allCircles\<close> is the same reference and its array
  has the same circles in the same order, and every array other than the returned one
  is unchanged.
\<close>

theorem findNearbyCircles_frame:
  assumes "arrays s (allCircles s) = Some cs"
      and "\<forall>q. next_ref s \<le> q \<longrightarrow> arrays s q = None"
  shows "\<exists>r s' out. findNearbyCircles ar plat plon s = Some (r, s') \<and>
           arrays s r = None \<and> arrays s' r = Some out \<and> r \<noteq> allCircles s \<and>
           allCircles s' = allCircles s \<and> arrays s' (allCircles s') = Some cs \<and>
           (\<forall>q. q \<noteq> r \<longrightarrow> arrays s' q = arrays s q)"
proof -
  let ?s' = "s\<lparr>arrays := (arrays s)(next_ref s \<mapsto> nearby_list ar plat plon cs),
                next_ref := Suc (next_ref s)\<rparr>"
  have run: "findNearbyCircles ar plat plon s = Some (next_ref s, ?s')"
    by (rule findNearbyCircles_run [OF assms(1)])
  have fresh: "arrays s (next_ref s) = None" using assms(2) by simp
  then have differs: "next_ref s \<noteq> allCircles s" using assms(1) by auto
  have "arrays ?s' (next_ref s) = Some (nearby_list ar plat plon cs)" by simp
  moreover have "allCircles ?s' = allCircles s" by simp
  moreover have "arrays ?s' (allCircles ?s') = Some cs" using differs assms(1) by simp
  moreover have "\<forall>q. q \<noteq> next_ref s \<longrightarrow> arrays ?s' q = arrays s q" by simp
  ultimately show ?thesis using run fresh differs by blast
qed

theorem findNearbyCircles_frame_witness:
  "arrays (state_with [circle_far_large, circle_negative])
     (allCircles (state_with [circle_far_large, circle_negative]))
     = Some [circle_far_large, circle_negative] \<and>
   (\<exists>r s'. findNearbyCircles exact 0 0 (state_with [circle_far_large, circle_negative])
              = Some (r, s') \<and>
      arrays (state_with [circle_far_large, circle_negative]) r = None \<and>
      arrays s' (allCircles s') = Some [circle_far_large, circle_negative] \<and>
      arrays s' r = Some [circle_negative, circle_far_large])"
proof -
  let ?cs = "[circle_far_large, circle_negative]"
  have a: "arrays (state_with ?cs) (allCircles (state_with ?cs)) = Some ?cs"
    by (rule state_with_allCircles)
  have b: "\<forall>q. next_ref (state_with ?cs) \<le> q \<longrightarrow> arrays (state_with ?cs) q = None"
    by (simp add: state_with_def)
  obtain r s' where run: "findNearbyCircles exact 0 0 (state_with ?cs) = Some (r, s')"
      and fresh: "arrays (state_with ?cs) r = None"
      and kept: "arrays s' (allCircles s') = Some ?cs"
    using findNearbyCircles_frame [OF a b, of exact 0 0] by blast
  have "findNearbyCircles exact 0 0 (state_with ?cs) =
          Some (1, (state_with ?cs)\<lparr>arrays := [0 \<mapsto> ?cs, 1 \<mapsto> [circle_negative, circle_far_large]],
                                   next_ref := 2\<rparr>)"
    by (simp add: findNearbyCircles_def Array_filter_def Array_sort_def state_with_def
          nearby_callback_def nearby_compare_def Let_def example_circles example_distances
          exact_simps)
  with run have "arrays s' r = Some [circle_negative, circle_far_large]" by auto
  with a run fresh kept show ?thesis by blast
qed

text \<open>
  C6, as stated, fails for \<^const>\<open>findNearbyCircles\<close>: its explicit arguments are the
  latitude and the longitude only, and two calls with the same arguments return
  different circles when the module-level variable \<^verbatim>\<open>allCircles\<close> differs.
\<close>

theorem findNearbyCircles_reads_allCircles:
  "result_contents (findNearbyCircles exact 0 0 (state_with [circle_origin]))
     \<noteq> result_contents (findNearbyCircles exact 0 0 (state_with []))"
  by (simp add: findNearbyCircles_def Array_filter_def Array_sort_def state_with_def
        nearby_callback_def Let_def circle_origin_def example_distances exact_simps)

text \<open>
  C6, amended. In every arithmetic the result of \<^const>\<open>findNearbyCircles\<close> is a function
  of the query point and of the contents of \<^verbatim>\<open>allCircles\<close>: in two states whose
  \<^verbatim>\<open>allCircles\<close> hold the same circles, whatever else differs, the returned arrays
  have the same contents; and the state after a call is the state before it with the
  returned array allocated, all module-level variables as they were. Nothing is
  cached: the state has no component for distances.
\<close>

theorem findNearbyCircles_snapshot:
  assumes "arrays s1 (allCircles s1) = Some cs"
      and "arrays s2 (allCircles s2) = Some cs"
  shows "\<exists>out.
           findNearbyCircles ar plat plon s1 =
             Some (next_ref s1, s1\<lparr>arrays := (arrays s1)(next_ref s1 \<mapsto> out),
                                  next_ref := Suc (next_ref s1)\<rparr>) \<and>
           findNearbyCircles ar plat plon s2 =
             Some (next_ref s2, s2\<lparr>arrays := (arrays s2)(next_ref s2 \<mapsto> out),
                                  next_ref := Suc (next_ref s2)\<rparr>)"
  using findNearbyCircles_run [OF assms(1)] findNearbyCircles_run [OF assms(2)] by blast

theorem findNearbyCircles_snapshot_witness:
  "arrays (state_with [circle_origin]) (allCircles (state_with [circle_origin]))
     = Some [circle_origin] \<and>
   arrays ((state_with [circle_origin])\<lparr>selectedArticles := [7], currentCircleId := Some ''o''\<rparr>)
     (allCircles ((state_with [circle_origin])\<lparr>selectedArticles := [7], currentCircleId := Some ''o''\<rparr>))
     = Some [circle_origin] \<and>
   result_contents (findNearbyCircles exact 0 0 (state_with [circle_origin]))
     = result_contents (findNearbyCircles exact 0 0
         ((state_with [circle_origin])\<lparr>selectedArticles := [7], currentCircleId := Some ''o''\<rparr>))"
proof -
  let ?s1 = "state_with [circle_origin]"
  let ?s2 = "(state_with [circle_origin])\<lparr>selectedArticles := [7], currentCircleId := Some ''o''\<rparr>"
  have a: "arrays ?s1 (allCircles ?s1) = Some [circle_origin]"
    by (rule state_with_allCircles)
  have b: "arrays ?s2 (allCircles ?s2) = Some [circle_origin]"
    by (simp add: state_with_def)
  from findNearbyCircles_snapshot [OF a b, of exact 0 0]
  have "result_contents (findNearbyCircles exact 0 0 ?s1)
          = result_contents (findNearbyCircles exact 0 0 ?s2)"
    by auto
  with a b show ?thesis by blast
qed

section \<open>Claims about containment and the article view\<close>

text \<open>
  C4. In every arithmetic the containment test of the article view is true if and
  only if the distance that \<^const>\<open>getDistanceFromLatLonInM\<close> returns is at most the
  circle's radius, equality included. The source takes the distance from the circle's
  center to the article's point; in a sign-symmetric arithmetic it is the same number
  as the distance from the article's point to the center.
\<close>

theorem isWithinCircle_iff:
  "(isWithinCircle ar p c \<longleftrightarrow>
      js_le ar (getDistanceFromLatLonInM ar (fst (center c)) (snd (center c)) (lat p) (lon p))
               (radius c)) \<and>
   (sign_symmetric ar neg \<longrightarrow>
      (isWithinCircle ar p c \<longleftrightarrow>
         js_le ar (getDistanceFromLatLonInM ar (lat p) (lon p) (fst (center c)) (snd (center c)))
                  (radius c)))"
  by (simp add: isWithinCircle_def getDistance_exchange [of ar neg "lat p" "lon p"])

theorem isWithinCircle_iff_witness:
  "getDistanceFromLatLonInM exact (lat article_origin) (lon article_origin)
       (fst (center circle_far_boundary)) (snd (center circle_far_boundary))
     = radius circle_far_boundary \<and>
   isWithinCircle exact article_origin circle_far_boundary"
  using isWithinCircle_iff [of exact article_origin circle_far_boundary uminus]
        sign_symmetric_exact
  by (simp add: article_origin_def circle_far_boundary_def example_distances exact_simps)




text \<open>
  C10. In every arithmetic, for a non-null article, the list of nearby circles of the
  article view is the list of the circles whose distance, as
  \<^const>\<open>getDistanceFromLatLonInM\<close> returns it from the center to the article's point, is
  at most their own radius, in the order of the input: a circle is in it if and only
  if it is in the input and passes that test. In a sign-symmetric arithmetic the
  distance is the same from the article's point to the center. The 1000-meter clause
  plays no part and the list is not sorted; in the example a circle at distance 0 with
  negative radius is left out, and a far circle stays in front of a near one.
\<close>

theorem nearbyCircles_containment_only:
  "\<exists>out. nearbyCircles ar (Some a) circles = Some out \<and>
         out = filter (\<lambda>c. js_le ar (getDistanceFromLatLonInM ar (fst (center c)) (snd (center c))
                                        (lat a) (lon a))
                                     (radius c)) circles \<and>
         (\<forall>c. c \<in> set out \<longleftrightarrow>
                c \<in> set circles \<and>
                js_le ar (getDistanceFromLatLonInM ar (fst (center c)) (snd (center c))
                            (lat a) (lon a))
                         (radius c)) \<and>
         subseq out circles \<and>
         (sign_symmetric ar neg \<longrightarrow>
            out = filter (\<lambda>c. js_le ar (getDistanceFromLatLonInM ar (lat a) (lon a)
                                           (fst (center c)) (snd (center c)))
                                        (radius c)) circles)"
  by (simp add: nearbyCircles_def isWithinCircle_def [abs_def]
        getDistance_exchange [of ar neg "lat a" "lon a"])

theorem nearbyCircles_containment_only_witness:
  "nearbyCircles exact (Some article_origin) [circle_far_large, circle_negative, circle_origin]
     = Some [circle_far_large, circle_origin]"
proof -
  obtain out where run: "nearbyCircles exact (Some article_origin)
                           [circle_far_large, circle_negative, circle_origin] = Some out"
      and out: "out = filter (\<lambda>c. js_le exact
                                    (getDistanceFromLatLonInM exact
                                       (lat article_origin) (lon article_origin)
                                       (fst (center c)) (snd (center c)))
                                    (radius c))
                        [circle_far_large, circle_negative, circle_origin]"
    using nearbyCircles_containment_only
            [of exact article_origin "[circle_far_large, circle_negative, circle_origin]" uminus]
          sign_symmetric_exact
    by blast
  have "out = [circle_far_large, circle_origin]"
    unfolding out
    by (simp add: article_origin_def example_circles example_distances exact_simps)
  with run show ?thesis by simp
qed

end
